theory Spec2Isabelle
  imports Complex_Main "HOL-Library.AList"
begin

section \<open>Numbers and exceptions\<close>

text \<open>
  The handlers are modelled in exact arithmetic on real numbers, which covers finite
  values.  \<^verbatim>\<open>Math.round(x)\<close> rounds to the nearest integer with ties going up; it is exact
  on every finite number and equals \<open>\<lfloor>x + 1/2\<rfloor>\<close>.

  An exception is a value: a function that can throw returns \<open>js_error + 'a\<close>, and a
  run ends at the first \<open>Inl\<close>.  \<open>NonFinite\<close> is not a JavaScript exception: it marks a
  result that is \<^verbatim>\<open>Infinity\<close> or \<^verbatim>\<open>NaN\<close> in JavaScript, values the real numbers do
  not have.
\<close>

datatype js_error = TypeError | SyntaxError | NonFinite

definition js_round :: "real \<Rightarrow> real" where
  "js_round x = of_int \<lfloor>x + 1 / 2\<rfloor>"

text \<open>\<^verbatim>\<open>xs[i]\<close>: \<^verbatim>\<open>undefined\<close> (here \<open>None\<close>) outside the array.\<close>

definition js_index :: "'a list \<Rightarrow> int \<Rightarrow> 'a option" where
  "js_index xs i = (if 0 \<le> i \<and> i < int (length xs) then Some (xs ! nat i) else None)"

text \<open>\<^verbatim>\<open>xs.slice(0, e)\<close>: a negative end counts from the end of the array.\<close>

definition js_slice0 :: "'a list \<Rightarrow> int \<Rightarrow> 'a list" where
  "js_slice0 xs e = (if e < 0 then take (nat (int (length xs) + e)) xs else take (nat e) xs)"

section \<open>Binary64 arithmetic\<close>

text \<open>
  A JavaScript number is an IEEE 754 binary64 value, and \<^verbatim>\<open>+\<close>, \<^verbatim>\<open>-\<close>, \<^verbatim>\<open>*\<close> and \<^verbatim>\<open>/\<close>
  return the exact result rounded to the nearest such value, ties to the even
  significand.  \<open>fl\<close> is that rounding of a real number: the exponent is the binary
  exponent of the number, not below -1022 (where the subnormal numbers begin), the
  spacing of the values at that exponent is \<open>ulp64\<close>, and the result is the nearest
  multiple of the spacing.  A result of magnitude \<open>2 ^ 1024\<close> or more is \<^verbatim>\<open>Infinity\<close>,
  and so is a division by zero (or it is \<^verbatim>\<open>NaN\<close>).
\<close>

definition round_even :: "real \<Rightarrow> int" where
  "round_even q =
     (let r = \<lfloor>q\<rfloor>; d = q - of_int r
      in if d < 1 / 2 then r else if d > 1 / 2 then r + 1
         else if even r then r else r + 1)"

definition exponent64 :: "real \<Rightarrow> int" where
  "exponent64 x = max \<lfloor>log 2 \<bar>x\<bar>\<rfloor> (- 1022)"

definition ulp64 :: "real \<Rightarrow> real" where
  "ulp64 x = 2 powi (exponent64 x - 52)"

definition fl :: "real \<Rightarrow> real" where
  "fl x = (if x = 0 then 0 else of_int (round_even (x / ulp64 x)) * ulp64 x)"

definition to64 :: "real \<Rightarrow> js_error + real" where
  "to64 x = (if \<bar>fl x\<bar> < 2 ^ 1024 then Inr (fl x) else Inl NonFinite)"

definition div64 :: "real \<Rightarrow> real \<Rightarrow> js_error + real" where
  "div64 a b = (if b = 0 then Inl NonFinite else to64 (a / b))"

definition mul64 :: "real \<Rightarrow> real \<Rightarrow> js_error + real" where
  "mul64 a b = to64 (a * b)"



section \<open>Grid.js\<close>




section \<open>CanvasDrawing.js\<close>

subsection \<open>State\<close>

text \<open>The object built by \<^verbatim>\<open>getCurrentToolProperties\<close>.\<close>

datatype tool_properties =
    TextProps string int string
  | FilledProps bool
  | NoProps

text \<open>A provisional or committed drawing, the object literal of \<^verbatim>\<open>handleMouseDown\<close>.\<close>

record drawing =
  tool :: string
  startX :: real
  startY :: real
  endX :: real
  endY :: real
  color :: string
  width :: int
  fill :: string
  properties :: tool_properties

text \<open>
  What a handler reads from the page: the canvas rectangle and size, the three style
  inputs (\<open>None\<close> when the element is missing), the reply to \<^verbatim>\<open>prompt\<close> (\<open>None\<close> when
  cancelled) and the fill checkbox.  \<open>strokeWidthInput\<close> holds the value after
  \<^verbatim>\<open>parseInt\<close>.
\<close>

record dom =
  rectLeft :: real
  rectTop :: real
  canvasWidth :: real
  canvasHeight :: real
  strokeColorInput :: "string option"
  strokeWidthInput :: "int option"
  fillColorInput :: "string option"
  promptReply :: "string option"
  fillShapeChecked :: "bool option"

record mouse_event =
  clientX :: real
  clientY :: real

text \<open>
  The fields of the \<^verbatim>\<open>CanvasDrawing\<close> object that the handlers use, together with the
  fields of the global \<^verbatim>\<open>AppState\<close> they read and write (\<open>drawings\<close>, \<open>zoom\<close>,
  \<open>currentTool\<close>).  \<^verbatim>\<open>this.startX\<close>, \<^verbatim>\<open>this.startY\<close> and \<^verbatim>\<open>this.snapToGrid\<close> carry the
  prefix \<open>cd_\<close>.
\<close>

record editor =
  isDrawing :: bool
  cd_startX :: real
  cd_startY :: real
  currentPreview :: "drawing option"
  gridSize :: real
  cd_snapToGrid :: bool
  history :: "drawing list list"
  historyIndex :: int
  maxHistorySize :: int
  drawings :: "drawing list"
  zoom :: real
  currentTool :: string

text \<open>The constructor, with \<^verbatim>\<open>AppState\<close> as \<^verbatim>\<open>app.js\<close> declares it.\<close>

definition initial :: editor where
  "initial = \<lparr> isDrawing = False, cd_startX = 0, cd_startY = 0, currentPreview = None,
     gridSize = 20, cd_snapToGrid = True, history = [], historyIndex = - 1,
     maxHistorySize = 50, drawings = [], zoom = 1, currentTool = ''select'' \<rparr>"

subsection \<open>Utility methods\<close>

text \<open>
  \<^verbatim>\<open>snapToGridCoord\<close> in exact arithmetic, as the handlers below use it, and the same
  method with the quotient and the product rounded to binary64.
\<close>

definition snapToGridCoord :: "editor \<Rightarrow> real \<Rightarrow> real" where
  "snapToGridCoord s coord = js_round (coord / gridSize s) * gridSize s"

definition snapToGridCoord64 :: "editor \<Rightarrow> real \<Rightarrow> js_error + real" where
  "snapToGridCoord64 s coord =
     (case div64 coord (gridSize s) of
        Inl err \<Rightarrow> Inl err
      | Inr q \<Rightarrow> mul64 (js_round q) (gridSize s))"

definition isValidDrawing :: "drawing \<Rightarrow> bool" where
  "isValidDrawing d =
     (if tool d = ''rectangle'' then
        (let w = \<bar>endX d - startX d\<bar>; h = \<bar>endY d - startY d\<bar> in w > 5 \<and> h > 5)
      else if tool d = ''circle'' then
        (let radius = sqrt ((endX d - startX d)\<^sup>2 + (endY d - startY d)\<^sup>2) in radius > 5)
      else if tool d = ''line'' then
        (let len = sqrt ((endX d - startX d)\<^sup>2 + (endY d - startY d)\<^sup>2) in len > 5)
      else if tool d = ''text'' then True
      else False)"

definition getStrokeColor :: "dom \<Rightarrow> string" where
  "getStrokeColor e = (case strokeColorInput e of Some v \<Rightarrow> v | None \<Rightarrow> ''#2563eb'')"

definition getStrokeWidth :: "dom \<Rightarrow> int" where
  "getStrokeWidth e = (case strokeWidthInput e of Some v \<Rightarrow> v | None \<Rightarrow> 2)"

definition getFillColor :: "dom \<Rightarrow> string" where
  "getFillColor e = (case fillColorInput e of Some v \<Rightarrow> v | None \<Rightarrow> ''transparent'')"

definition getCurrentToolProperties :: "editor \<Rightarrow> dom \<Rightarrow> tool_properties" where
  "getCurrentToolProperties s e =
     (if currentTool s = ''text'' then
        TextProps (case promptReply e of None \<Rightarrow> ''Text''
                   | Some t \<Rightarrow> if t = [] then ''Text'' else t) 16 ''Inter''
      else if currentTool s = ''rectangle'' \<or> currentTool s = ''circle'' then
        FilledProps (case fillShapeChecked e of None \<Rightarrow> False | Some b \<Rightarrow> b)
      else NoProps)"

subsection \<open>History\<close>

text \<open>
  \<^verbatim>\<open>JSON.parse(JSON.stringify(ds))\<close> builds a fresh structure with the same content: for
  strings, finite numbers and plain objects the copy is content-equal to the original.
  Values have no identity in the model, so the copy is the list itself.
\<close>

definition jsonCopy :: "drawing list \<Rightarrow> drawing list" where
  "jsonCopy ds = ds"

definition canUndo :: "editor \<Rightarrow> bool" where
  "canUndo s = (historyIndex s > 0)"

definition canRedo :: "editor \<Rightarrow> bool" where
  "canRedo s = (historyIndex s < int (length (history s)) - 1)"

text \<open>
  \<^verbatim>\<open>saveState\<close> in its two parts: \<open>pushState\<close> drops the redo branch and appends a copy of
  the scene, \<open>limitHistory\<close> is the final \<^verbatim>\<open>if\<close> that evicts the oldest snapshot.
\<close>

definition pushState :: "editor \<Rightarrow> editor" where
  "pushState s =
     (let h = (if historyIndex s < int (length (history s)) - 1
               then js_slice0 (history s) (historyIndex s + 1) else history s);
          state = jsonCopy (drawings s)
      in s\<lparr> history := h @ [state], historyIndex := historyIndex s + 1 \<rparr>)"

definition limitHistory :: "editor \<Rightarrow> editor" where
  "limitHistory s =
     (if int (length (history s)) > maxHistorySize s
      then s\<lparr> history := tl (history s), historyIndex := historyIndex s - 1 \<rparr>
      else s)"

definition saveState :: "editor \<Rightarrow> editor" where
  "saveState s = limitHistory (pushState s)"

text \<open>
  \<^verbatim>\<open>undo\<close> and \<^verbatim>\<open>redo\<close>.  Outside the array \<^verbatim>\<open>this.history[this.historyIndex]\<close> is
  \<^verbatim>\<open>undefined\<close>, \<^verbatim>\<open>JSON.stringify\<close> returns \<^verbatim>\<open>undefined\<close> and \<^verbatim>\<open>JSON.parse\<close> throws.
\<close>

definition undo :: "editor \<Rightarrow> js_error + editor" where
  "undo s =
     (if canUndo s then
        (case js_index (history s) (historyIndex s - 1) of
           None \<Rightarrow> Inl SyntaxError
         | Some snap \<Rightarrow> Inr (s\<lparr> historyIndex := historyIndex s - 1, drawings := jsonCopy snap \<rparr>))
      else Inr s)"

definition redo :: "editor \<Rightarrow> js_error + editor" where
  "redo s =
     (if canRedo s then
        (case js_index (history s) (historyIndex s + 1) of
           None \<Rightarrow> Inl SyntaxError
         | Some snap \<Rightarrow> Inr (s\<lparr> historyIndex := historyIndex s + 1, drawings := jsonCopy snap \<rparr>))
      else Inr s)"

definition clear :: "editor \<Rightarrow> editor" where
  "clear s = saveState (s\<lparr> drawings := [] \<rparr>)"

subsection \<open>Mouse handlers\<close>

text \<open>The pointer position in canvas coordinates, \<^verbatim>\<open>(event.clientX - rect.left) / AppState.zoom\<close>.\<close>

definition canvasCoord :: "real \<Rightarrow> real \<Rightarrow> real \<Rightarrow> js_error + real" where
  "canvasCoord client origin z = (if z = 0 then Inl NonFinite else Inr ((client - origin) / z))"

definition snapped :: "editor \<Rightarrow> real \<Rightarrow> real" where
  "snapped s x = (if cd_snapToGrid s then snapToGridCoord s x else x)"

definition handleMouseDown :: "editor \<Rightarrow> dom \<Rightarrow> mouse_event \<Rightarrow> js_error + editor" where
  "handleMouseDown s e ev =
     (case canvasCoord (clientX ev) (rectLeft e) (zoom s) of
        Inl err \<Rightarrow> Inl err
      | Inr x \<Rightarrow>
     (case canvasCoord (clientY ev) (rectTop e) (zoom s) of
        Inl err \<Rightarrow> Inl err
      | Inr y \<Rightarrow>
        let s1 = s\<lparr> cd_startX := snapped s x, cd_startY := snapped s y \<rparr>
        in if currentTool s1 \<noteq> ''select'' then
             let s2 = saveState (s1\<lparr> isDrawing := True \<rparr>)
             in Inr (s2\<lparr> currentPreview := Some
                  \<lparr> tool = currentTool s2,
                    startX = cd_startX s2, startY = cd_startY s2,
                    endX = cd_startX s2, endY = cd_startY s2,
                    color = getStrokeColor e, width = getStrokeWidth e,
                    fill = getFillColor e,
                    properties = getCurrentToolProperties s2 e \<rparr> \<rparr>)
           else Inr s1))"

definition handleMouseMove :: "editor \<Rightarrow> dom \<Rightarrow> mouse_event \<Rightarrow> js_error + editor" where
  "handleMouseMove s e ev =
     (case canvasCoord (clientX ev) (rectLeft e) (zoom s) of
        Inl err \<Rightarrow> Inl err
      | Inr x \<Rightarrow>
     (case canvasCoord (clientY ev) (rectTop e) (zoom s) of
        Inl err \<Rightarrow> Inl err
      | Inr y \<Rightarrow>
        (case currentPreview s of
           Some p \<Rightarrow>
             if isDrawing s
             then Inr (s\<lparr> currentPreview := Some (p\<lparr> endX := snapped s x, endY := snapped s y \<rparr>) \<rparr>)
             else Inr s
         | None \<Rightarrow> Inr s)))"

definition handleMouseUp :: "editor \<Rightarrow> editor" where
  "handleMouseUp s =
     (let s1 = (case currentPreview s of
                  Some p \<Rightarrow>
                    if isDrawing s then
                      (let s' = (if isValidDrawing p then s\<lparr> drawings := drawings s @ [p] \<rparr> else s)
                       in s'\<lparr> currentPreview := None \<rparr>)
                    else s
                | None \<Rightarrow> s)
      in s1\<lparr> isDrawing := False \<rparr>)"

definition handleMouseLeave :: "editor \<Rightarrow> editor" where
  "handleMouseLeave s =
     (if isDrawing s then s\<lparr> currentPreview := None, isDrawing := False \<rparr> else s)"

subsection \<open>Zoom\<close>

definition handleWheel :: "editor \<Rightarrow> real \<Rightarrow> editor" where
  "handleWheel s deltaY =
     (let delta = (if deltaY > 0 then 9 / 10 else 11 / 10);
          newZoom = max (1 / 10) (min 5 (zoom s * delta))
      in if newZoom \<noteq> zoom s then s\<lparr> zoom := newZoom \<rparr> else s)"

definition zoomIn :: "editor \<Rightarrow> editor" where
  "zoomIn s =
     (let newZoom = min 5 (zoom s * (12 / 10))
      in if newZoom \<noteq> zoom s then s\<lparr> zoom := newZoom \<rparr> else s)"

definition zoomOut :: "editor \<Rightarrow> editor" where
  "zoomOut s =
     (let newZoom = max (1 / 10) (zoom s / (12 / 10))
      in if newZoom \<noteq> zoom s then s\<lparr> zoom := newZoom \<rparr> else s)"

definition resetZoom :: "editor \<Rightarrow> editor" where
  "resetZoom s = (if zoom s \<noteq> 1 then s\<lparr> zoom := 1 \<rparr> else s)"

text \<open>
  The bounding box of \<^verbatim>\<open>fitToScreen\<close>.  The source folds from \<^verbatim>\<open>Infinity\<close> and
  \<^verbatim>\<open>-Infinity\<close>; the function is called on a non-empty list only, where the fold from
  the first drawing gives the same numbers.
\<close>

definition boundLow :: "(drawing \<Rightarrow> real) \<Rightarrow> (drawing \<Rightarrow> real) \<Rightarrow> drawing list \<Rightarrow> real" where
  "boundLow a b ds = foldl (\<lambda>m d. min m (min (a d) (b d))) (min (a (hd ds)) (b (hd ds))) (tl ds)"

definition boundHigh :: "(drawing \<Rightarrow> real) \<Rightarrow> (drawing \<Rightarrow> real) \<Rightarrow> drawing list \<Rightarrow> real" where
  "boundHigh a b ds = foldl (\<lambda>m d. max m (max (a d) (b d))) (max (a (hd ds)) (b (hd ds))) (tl ds)"

definition fitToScreen :: "editor \<Rightarrow> dom \<Rightarrow> editor" where
  "fitToScreen s e =
     (if length (drawings s) = 0 then s
      else
        let minX = boundLow startX endX (drawings s);
            minY = boundLow startY endY (drawings s);
            maxX = boundHigh startX endX (drawings s);
            maxY = boundHigh startY endY (drawings s);
            drawingWidth = maxX - minX;
            drawingHeight = maxY - minY
        in if drawingWidth > 0 \<and> drawingHeight > 0 then
             let scaleX = (canvasWidth e * (8 / 10)) / drawingWidth;
                 scaleY = (canvasHeight e * (8 / 10)) / drawingHeight
             in s\<lparr> zoom := min (min scaleX scaleY) 5 \<rparr>
           else s)"

subsection \<open>Runs of the editor\<close>

text \<open>\<^verbatim>\<open>destroy\<close> empties the history.\<close>

definition destroy :: "editor \<Rightarrow> editor" where
  "destroy s = s\<lparr> history := [], historyIndex := - 1 \<rparr>"

text \<open>
  The calls that reach the component: the canvas events, the toolbar's undo, redo and
  clear, the four zoom buttons, \<^verbatim>\<open>destroy\<close>, and \<^verbatim>\<open>App.setTool\<close>, which assigns
  \<^verbatim>\<open>AppState.currentTool\<close>.
\<close>

datatype action =
    MouseDown dom mouse_event
  | MouseMove dom mouse_event
  | MouseUp
  | MouseLeave
  | Wheel real
  | Undo
  | Redo
  | Clear
  | ZoomIn
  | ZoomOut
  | ResetZoom
  | FitToScreen dom
  | SetTool string
  | Destroy

fun step :: "action \<Rightarrow> editor \<Rightarrow> js_error + editor" where
  "step (MouseDown e ev) s = handleMouseDown s e ev"
| "step (MouseMove e ev) s = handleMouseMove s e ev"
| "step MouseUp s = Inr (handleMouseUp s)"
| "step MouseLeave s = Inr (handleMouseLeave s)"
| "step (Wheel dy) s = Inr (handleWheel s dy)"
| "step Undo s = undo s"
| "step Redo s = redo s"
| "step Clear s = Inr (clear s)"
| "step ZoomIn s = Inr (zoomIn s)"
| "step ZoomOut s = Inr (zoomOut s)"
| "step ResetZoom s = Inr (resetZoom s)"
| "step (FitToScreen e) s = Inr (fitToScreen s e)"
| "step (SetTool t) s = Inr (s\<lparr> currentTool := t \<rparr>)"
| "step Destroy s = Inr (destroy s)"

fun run :: "action list \<Rightarrow> editor \<Rightarrow> js_error + editor" where
  "run [] s = Inr s"
| "run (a # as) s = (case step a s of Inl err \<Rightarrow> Inl err | Inr s' \<Rightarrow> run as s')"

inductive reachable :: "editor \<Rightarrow> bool" where
  reachable_initial: "reachable initial"
| reachable_step: "reachable s \<Longrightarrow> step a s = Inr s' \<Longrightarrow> reachable s'"

section \<open>LayerManager.js\<close>

subsection \<open>Layer\<close>

text \<open>
  A shape is an object with identity: the manager compares shapes by reference
  (\<^verbatim>\<open>includes\<close>, \<^verbatim>\<open>indexOf\<close>) and writes their \<^verbatim>\<open>layer\<close> field.  A shape is a
  reference, and the store \<open>shape_ref \<Rightarrow> string option\<close> holds the \<^verbatim>\<open>layer\<close> field of every
  shape (\<open>None\<close> is \<^verbatim>\<open>null\<close>).
\<close>

type_synonym shape_ref = nat

type_synonym shape_store = "shape_ref \<Rightarrow> string option"

text \<open>The fields \<^verbatim>\<open>id\<close>, \<^verbatim>\<open>name\<close> and \<^verbatim>\<open>color\<close> of a layer carry the prefix \<open>layer_\<close>.\<close>

record layer =
  layer_id :: string
  layer_name :: string
  visible :: bool
  locked :: bool
  opacity :: real
  layer_color :: string
  shapes :: "shape_ref list"
  index :: int

text \<open>The \<^verbatim>\<open>options\<close> argument; \<open>None\<close> is an absent (\<^verbatim>\<open>undefined\<close>) property.\<close>

record layer_options =
  opt_visible :: "bool option"
  opt_locked :: "bool option"
  opt_opacity :: "real option"
  opt_color :: "string option"
  opt_index :: "int option"

definition no_options :: layer_options where
  "no_options = \<lparr> opt_visible = None, opt_locked = None, opt_opacity = None,
     opt_color = None, opt_index = None \<rparr>"

text \<open>
  The constructor.  \<^verbatim>\<open>a || b\<close> is \<^verbatim>\<open>b\<close> when \<^verbatim>\<open>a\<close> is falsy: \<^verbatim>\<open>undefined\<close>, \<^verbatim>\<open>false\<close>,
  the number 0 or the empty string.
\<close>

definition new_Layer :: "string \<Rightarrow> string \<Rightarrow> layer_options \<Rightarrow> layer" where
  "new_Layer i n options =
     \<lparr> layer_id = i, layer_name = n,
       visible = (opt_visible options \<noteq> Some False),
       locked = (case opt_locked options of Some b \<Rightarrow> b | None \<Rightarrow> False),
       opacity = (case opt_opacity options of Some v \<Rightarrow> if v = 0 then 1 else v | None \<Rightarrow> 1),
       layer_color = (case opt_color options of
                        Some c \<Rightarrow> if c = [] then ''#000000'' else c | None \<Rightarrow> ''#000000''),
       shapes = [],
       index = (case opt_index options of Some k \<Rightarrow> k | None \<Rightarrow> 0) \<rparr>"

definition addShape :: "layer \<Rightarrow> shape_ref \<Rightarrow> shape_store \<Rightarrow> layer \<times> shape_store" where
  "addShape l shape st =
     (if shape \<notin> set (shapes l)
      then (l\<lparr> shapes := shapes l @ [shape] \<rparr>, st(shape := Some (layer_id l)))
      else (l, st))"

definition removeShape :: "layer \<Rightarrow> shape_ref \<Rightarrow> shape_store \<Rightarrow> layer \<times> shape_store" where
  "removeShape l shape st =
     (if shape \<in> set (shapes l)
      then (l\<lparr> shapes := remove1 shape (shapes l) \<rparr>, st(shape := None))
      else (l, st))"

record layer_json =
  json_id :: string
  json_name :: string
  json_visible :: bool
  json_locked :: bool
  json_opacity :: real
  json_color :: string
  json_index :: int

definition toJSON :: "layer \<Rightarrow> layer_json" where
  "toJSON l = \<lparr> json_id = layer_id l, json_name = layer_name l, json_visible = visible l,
     json_locked = locked l, json_opacity = opacity l, json_color = layer_color l,
     json_index = index l \<rparr>"

subsection \<open>LayerManager\<close>

text \<open>
  \<^verbatim>\<open>this.layers\<close> is a \<^verbatim>\<open>Map\<close>, which iterates in insertion order: an association list,
  with \<open>AList.update\<close> for \<^verbatim>\<open>set\<close> (in place for a key that is present, at the end for a
  new one) and \<open>AList.delete\<close> for \<^verbatim>\<open>delete\<close>.  Every layer is stored under its own id, so
  two layers looked up in the map are the same object exactly when their keys are equal.
  \<open>shapeLayer\<close> is the store of the shapes' \<^verbatim>\<open>layer\<close> fields.
\<close>

record lm =
  layers :: "(string \<times> layer) list"
  activeLayerId :: "string option"
  layerOrder :: "string list"
  nextLayerId :: nat
  shapeLayer :: shape_store

text \<open>The decimal numeral that a template literal prints for a counter.\<close>

fun string_of_nat :: "nat \<Rightarrow> string" where
  "string_of_nat n =
     (if n < 10 then [char_of (48 + n)]
      else string_of_nat (n div 10) @ [char_of (48 + n mod 10)])"

declare string_of_nat.simps [simp del]

text \<open>Runs a \<^verbatim>\<open>Layer\<close> method on the layer stored under a key.\<close>

definition onLayer ::
  "string \<Rightarrow> (layer \<Rightarrow> shape_store \<Rightarrow> layer \<times> shape_store) \<Rightarrow> lm \<Rightarrow> lm" where
  "onLayer k f m =
     (case map_of (layers m) k of
        None \<Rightarrow> m
      | Some l \<Rightarrow>
          (case f l (shapeLayer m) of
             (l', st') \<Rightarrow> m\<lparr> layers := AList.update k l' (layers m), shapeLayer := st' \<rparr>))"

definition createDefaultLayer :: "lm \<Rightarrow> lm" where
  "createDefaultLayer m =
     (let defaultLayer = new_Layer ''layer_0'' ''Default Layer'' (no_options\<lparr> opt_index := Some 0 \<rparr>)
      in m\<lparr> layers := AList.update (layer_id defaultLayer) defaultLayer (layers m),
            layerOrder := layerOrder m @ [layer_id defaultLayer],
            activeLayerId := Some (layer_id defaultLayer) \<rparr>)"

text \<open>The constructor; the store of the shapes that exist is a parameter.\<close>

definition new_LayerManager :: "shape_store \<Rightarrow> lm" where
  "new_LayerManager st =
     createDefaultLayer \<lparr> layers = [], activeLayerId = None, layerOrder = [],
       nextLayerId = 1, shapeLayer = st \<rparr>"

definition updateLayerIndices :: "lm \<Rightarrow> lm" where
  "updateLayerIndices m =
     m\<lparr> layers :=
          foldl (\<lambda>ls (i, k). case map_of ls k of
                               None \<Rightarrow> ls
                             | Some l \<Rightarrow> AList.update k (l\<lparr> index := int i \<rparr>) ls)
            (layers m) (enumerate 0 (layerOrder m)) \<rparr>"

text \<open>\<^verbatim>\<open>xs.splice(i, 0, x)\<close>: a negative position counts from the end.\<close>

definition js_insert :: "int \<Rightarrow> 'a \<Rightarrow> 'a list \<Rightarrow> 'a list" where
  "js_insert i x xs =
     (let p = (if i < 0 then nat (max (int (length xs) + i) 0) else nat i)
      in take p xs @ [x] @ drop p xs)"

text \<open>\<^verbatim>\<open>createLayer\<close> returns the new layer; the model returns the id it is stored under.\<close>

definition createLayer :: "lm \<Rightarrow> string \<Rightarrow> layer_options \<Rightarrow> string \<times> lm" where
  "createLayer m n options =
     (let i = ''layer_'' @ string_of_nat (nextLayerId m);
          m1 = m\<lparr> nextLayerId := nextLayerId m + 1 \<rparr>;
          idx = (case opt_index options of Some k \<Rightarrow> k | None \<Rightarrow> int (length (layerOrder m1)));
          l = new_Layer i n (options\<lparr> opt_index := Some idx \<rparr>);
          m2 = m1\<lparr> layers := AList.update i l (layers m1) \<rparr>;
          m3 = (if idx \<ge> int (length (layerOrder m2))
                then m2\<lparr> layerOrder := layerOrder m2 @ [i] \<rparr>
                else m2\<lparr> layerOrder := js_insert idx i (layerOrder m2) \<rparr>)
      in (i, updateLayerIndices m3))"

definition getDefaultLayer :: "lm \<Rightarrow> layer option" where
  "getDefaultLayer m = map_of (layers m) ''layer_0''"

text \<open>
  The end of \<^verbatim>\<open>deleteLayer\<close>, after the shapes have been moved.
  \<^verbatim>\<open>this.layerOrder[0] || null\<close> is \<^verbatim>\<open>null\<close> for an empty array and for an empty string.
\<close>

definition dropLayer :: "string \<Rightarrow> lm \<Rightarrow> lm" where
  "dropLayer layerId m =
     (let m1 = m\<lparr> layerOrder := remove1 layerId (layerOrder m) \<rparr>;
          m2 = m1\<lparr> layers := AList.delete layerId (layers m1) \<rparr>;
          m3 = (if activeLayerId m2 = Some layerId
                then m2\<lparr> activeLayerId :=
                       (case layerOrder m2 of [] \<Rightarrow> None
                        | k # _ \<Rightarrow> if k = [] then None else Some k) \<rparr>
                else m2)
      in updateLayerIndices m3)"

text \<open>
  \<^verbatim>\<open>deleteLayer\<close>.  When no layer is stored under \<^verbatim>\<open>'layer_0'\<close>, \<^verbatim>\<open>defaultLayer\<close> is
  \<^verbatim>\<open>undefined\<close>, the test \<^verbatim>\<open>layer !== defaultLayer\<close> succeeds, and the first call of
  \<^verbatim>\<open>defaultLayer.addShape\<close> throws; the loop makes no call for a layer without shapes.
\<close>

definition deleteLayer :: "lm \<Rightarrow> string \<Rightarrow> js_error + (bool \<times> lm)" where
  "deleteLayer m layerId =
     (case map_of (layers m) layerId of
        None \<Rightarrow> Inr (False, m)
      | Some l \<Rightarrow>
          if length (layers m) \<le> 1 then Inr (False, m)
          else
            (case getDefaultLayer m of
               None \<Rightarrow>
                 if shapes l = [] then Inr (True, dropLayer layerId m) else Inl TypeError
             | Some defaultLayer \<Rightarrow>
                 if layerId \<noteq> ''layer_0'' then
                   Inr (True, dropLayer layerId
                     (foldl (\<lambda>m' shape. onLayer ''layer_0'' (\<lambda>d. addShape d shape) m') m (shapes l)))
                 else
                   (case find (\<lambda>(k, other). k \<noteq> layerId) (layers m) of
                      Some (k, otherLayer) \<Rightarrow>
                        Inr (True, dropLayer layerId
                          (foldl (\<lambda>m' shape. onLayer k (\<lambda>d. addShape d shape) m') m (shapes l)))
                    | None \<Rightarrow> Inr (True, dropLayer layerId m))))"

definition setLayerOpacity :: "lm \<Rightarrow> string \<Rightarrow> real \<Rightarrow> bool \<times> lm" where
  "setLayerOpacity m layerId v =
     (case map_of (layers m) layerId of
        Some l \<Rightarrow>
          (True, m\<lparr> layers := AList.update layerId (l\<lparr> opacity := max 0 (min 1 v) \<rparr>) (layers m) \<rparr>)
      | None \<Rightarrow> (False, m))"

text \<open>\<^verbatim>\<open>this.layers.forEach(layer => layer.removeShape(shape))\<close>, in map order.\<close>

definition removeShapeFromAllLayers :: "lm \<Rightarrow> shape_ref \<Rightarrow> lm" where
  "removeShapeFromAllLayers m shape =
     foldl (\<lambda>m' k. onLayer k (\<lambda>l. removeShape l shape) m') m (map fst (layers m))"

text \<open>
  \<^verbatim>\<open>addShapeToLayer(shape, layerId = null)\<close>: \<^verbatim>\<open>layerId || this.activeLayerId\<close> falls back
  to the active layer for \<^verbatim>\<open>null\<close> and for the empty string.
\<close>

definition addShapeToLayer :: "lm \<Rightarrow> shape_ref \<Rightarrow> string option \<Rightarrow> bool \<times> lm" where
  "addShapeToLayer m shape layerId =
     (let targetLayerId = (case layerId of
                             None \<Rightarrow> activeLayerId m
                           | Some k \<Rightarrow> if k = [] then activeLayerId m else Some k)
      in case targetLayerId of
           None \<Rightarrow> (False, m)
         | Some t \<Rightarrow>
             (case map_of (layers m) t of
                None \<Rightarrow> (False, m)
              | Some l \<Rightarrow>
                  if \<not> locked l
                  then (True, onLayer t (\<lambda>d. addShape d shape) (removeShapeFromAllLayers m shape))
                  else (False, m)))"

definition moveShapeToLayer :: "lm \<Rightarrow> shape_ref \<Rightarrow> string option \<Rightarrow> bool \<times> lm" where
  "moveShapeToLayer m shape targetLayerId =
     addShapeToLayer (removeShapeFromAllLayers m shape) shape targetLayerId"

text \<open>\<^verbatim>\<open>getShapeLayer\<close> returns the first layer holding the shape; the model returns its key.\<close>

definition getShapeLayer :: "lm \<Rightarrow> shape_ref \<Rightarrow> string option" where
  "getShapeLayer m shape =
     (case find (\<lambda>(k, l). shape \<in> set (shapes l)) (layers m) of
        Some (k, l) \<Rightarrow> Some k
      | None \<Rightarrow> None)"

text \<open>The keys of all layers whose shape list holds the shape.\<close>

definition ownersOf :: "lm \<Rightarrow> shape_ref \<Rightarrow> string list" where
  "ownersOf m shape = map fst (filter (\<lambda>(k, l). shape \<in> set (shapes l)) (layers m))"

subsection \<open>Export and import\<close>

text \<open>The exported object; \<open>None\<close> is an absent property (or \<^verbatim>\<open>null\<close> for the active layer).\<close>

record layers_data =
  data_layers :: "layer_json list option"
  data_layerOrder :: "string list option"
  data_activeLayerId :: "string option"
  data_nextLayerId :: "nat option"

definition exportLayers :: "lm \<Rightarrow> layers_data" where
  "exportLayers m =
     \<lparr> data_layers = Some (map (\<lambda>(k, l). toJSON l) (layers m)),
       data_layerOrder = Some (layerOrder m),
       data_activeLayerId = activeLayerId m,
       data_nextLayerId = Some (nextLayerId m) \<rparr>"

definition importLayer :: "layer_json \<Rightarrow> layer" where
  "importLayer layerData =
     new_Layer (json_id layerData) (json_name layerData)
       \<lparr> opt_visible = Some (json_visible layerData), opt_locked = Some (json_locked layerData),
         opt_opacity = Some (json_opacity layerData), opt_color = Some (json_color layerData),
         opt_index = Some (json_index layerData) \<rparr>"

definition importLayers :: "lm \<Rightarrow> layers_data \<Rightarrow> lm" where
  "importLayers m d =
     (let m1 = m\<lparr> layers := [], layerOrder := [] \<rparr>;
          m2 = (case data_layers d of
                  Some ls \<Rightarrow>
                    m1\<lparr> layers := foldl (\<lambda>acc layerData. AList.update (json_id layerData)
                                            (importLayer layerData) acc) [] ls \<rparr>
                | None \<Rightarrow> m1);
          m3 = (case data_layerOrder d of Some order \<Rightarrow> m2\<lparr> layerOrder := order \<rparr> | None \<Rightarrow> m2);
          m4 = (case data_activeLayerId d of
                  Some a \<Rightarrow>
                    if a \<noteq> [] \<and> map_of (layers m3) a \<noteq> None then m3\<lparr> activeLayerId := Some a \<rparr>
                    else (case layerOrder m3 of [] \<Rightarrow> m3 | k # _ \<Rightarrow> m3\<lparr> activeLayerId := Some k \<rparr>)
                | None \<Rightarrow>
                    (case layerOrder m3 of [] \<Rightarrow> m3 | k # _ \<Rightarrow> m3\<lparr> activeLayerId := Some k \<rparr>));
          m5 = (case data_nextLayerId d of
                  Some n \<Rightarrow> if n \<noteq> 0 then m4\<lparr> nextLayerId := n \<rparr> else m4
                | None \<Rightarrow> m4)
      in if length (layers m5) = 0 then createDefaultLayer m5 else m5)"

section \<open>Sequences of strokes\<close>

text \<open>
  A stroke is a pointer-down, one pointer-move and a pointer-up, each with what the page
  holds at that moment.
\<close>

record stroke =
  pressDom :: dom
  press :: mouse_event
  dragDom :: dom
  drag :: mouse_event

definition strokeActions :: "stroke \<Rightarrow> action list" where
  "strokeActions k = [MouseDown (pressDom k) (press k), MouseMove (dragDom k) (drag k), MouseUp]"

definition strokes :: "stroke list \<Rightarrow> action list" where
  "strokes ks = concat (map strokeActions ks)"

text \<open>
  A stroke commits when a drawing tool is active and the three handlers run and leave
  one more shape in \<open>drawings\<close>; \<open>commitsAll\<close> says so of every stroke of a sequence, each
  from the state its predecessors leave.
\<close>

definition commits :: "editor \<Rightarrow> stroke \<Rightarrow> bool" where
  "commits s k =
     (currentTool s \<noteq> ''select'' \<and>
      (case run (strokeActions k) s of
         Inr s' \<Rightarrow> length (drawings s') = Suc (length (drawings s))
       | Inl err \<Rightarrow> False))"

fun commitsAll :: "editor \<Rightarrow> stroke list \<Rightarrow> bool" where
  "commitsAll s [] = True"
| "commitsAll s (k # ks) =
     (commits s k \<and>
      (case run (strokeActions k) s of Inr s' \<Rightarrow> commitsAll s' ks | Inl err \<Rightarrow> False))"

section \<open>Invariant of the history\<close>

definition histOk :: "editor \<Rightarrow> bool" where
  "histOk s = (maxHistorySize s = 50 \<and> int (length (history s)) \<le> 50
     \<and> - 1 \<le> historyIndex s \<and> historyIndex s < int (length (history s)))"

section \<open>Concrete inputs\<close>



text \<open>A page with the canvas at the origin, 800 by 600, and no style inputs.\<close>

definition dom0 :: dom where
  "dom0 = \<lparr> rectLeft = 0, rectTop = 0, canvasWidth = 800, canvasHeight = 600,
     strokeColorInput = None, strokeWidthInput = None, fillColorInput = None,
     promptReply = None, fillShapeChecked = None \<rparr>"

definition pt :: "real \<Rightarrow> real \<Rightarrow> mouse_event" where
  "pt x y = \<lparr> clientX = x, clientY = y \<rparr>"

definition lineFrom :: "real \<Rightarrow> real \<Rightarrow> real \<Rightarrow> real \<Rightarrow> drawing" where
  "lineFrom x0 y0 x1 y1 = \<lparr> tool = ''line'', startX = x0, startY = y0, endX = x1, endY = y1,
     color = ''#2563eb'', width = 2, fill = ''transparent'', properties = NoProps \<rparr>"

text \<open>The editor after one line from (0, 0) to (100, 0), and after a second line.\<close>

definition afterLine :: editor where
  "afterLine = initial\<lparr> history := [Nil], historyIndex := 0,
     drawings := [lineFrom 0 0 100 0], currentTool := ''line'' \<rparr>"

definition afterTwoLines :: editor where
  "afterTwoLines = initial\<lparr> cd_startX := 40, cd_startY := 40,
     history := [Nil, [lineFrom 0 0 100 0]], historyIndex := 1,
     drawings := [lineFrom 0 0 100 0, lineFrom 40 40 40 100], currentTool := ''line'' \<rparr>"

text \<open>The editor at zoom 0.1 with one line across the whole visible canvas.\<close>

definition zoomedOut :: editor where
  "zoomedOut = initial\<lparr> cd_startX := 0, cd_startY := 0, history := [Nil], historyIndex := 0,
     drawings := [lineFrom 0 0 8000 6000], zoom := 1 / 10, currentTool := ''line'' \<rparr>"

text \<open>
  The stroke from (0, 0) to (100, 0), the label it draws with the text tool, the editor
  with the line tool selected, and the editor with the text tool after \<^verbatim>\<open>clear\<close>.
\<close>

definition stroke0 :: stroke where
  "stroke0 = \<lparr> pressDom = dom0, press = pt 0 0, dragDom = dom0, drag = pt 100 0 \<rparr>"

definition label0 :: drawing where
  "label0 = \<lparr> tool = ''text'', startX = 0, startY = 0, endX = 100, endY = 0,
     color = ''#2563eb'', width = 2, fill = ''transparent'',
     properties = TextProps ''Text'' 16 ''Inter'' \<rparr>"

definition lineTool :: editor where
  "lineTool = initial\<lparr> currentTool := ''line'' \<rparr>"

definition afterClear :: editor where
  "afterClear = initial\<lparr> history := [Nil], historyIndex := 0, currentTool := ''text'' \<rparr>"

text \<open>The editor after two such labels drawn from \<open>afterClear\<close>.\<close>

definition twoLabels :: editor where
  "twoLabels = initial\<lparr> history := [Nil, Nil, [label0]], historyIndex := 2,
     drawings := [label0, label0], currentTool := ''text'' \<rparr>"

text \<open>A rectangle drag of a given width and height, and the editor holding it as preview.\<close>

definition rectangleDrag :: "real \<Rightarrow> real \<Rightarrow> drawing" where
  "rectangleDrag w h = \<lparr> tool = ''rectangle'', startX = 40, startY = 40, endX = 40 + w,
     endY = 40 + h, color = ''#2563eb'', width = 2, fill = ''transparent'',
     properties = FilledProps False \<rparr>"

definition dragging :: "drawing \<Rightarrow> editor" where
  "dragging d = initial\<lparr> isDrawing := True, cd_startX := startX d, cd_startY := startY d,
     currentPreview := Some d, history := [Nil], historyIndex := 0, currentTool := tool d \<rparr>"

text \<open>The editor after fifty calls of \<^verbatim>\<open>clear\<close>: the history is full.\<close>

definition fullHistory :: editor where
  "fullHistory = (clear ^^ 50) initial"

text \<open>Layer managers: shapes whose \<^verbatim>\<open>layer\<close> field is \<^verbatim>\<open>null\<close>, and shape 1 added.\<close>

definition noStore :: shape_store where
  "noStore = (\<lambda>_. None)"

definition withLockedLayer :: lm where
  "withLockedLayer = snd (createLayer (new_LayerManager noStore) ''Walls''
     (no_options\<lparr> opt_locked := Some True \<rparr>))"

definition shapeOnDefault :: lm where
  "shapeOnDefault = snd (addShapeToLayer withLockedLayer 1 None)"

definition twoLayers :: lm where
  "twoLayers = snd (createLayer (snd (createLayer (new_LayerManager noStore) ''A'' no_options))
     ''B'' no_options)"

definition shapeOnA :: lm where
  "shapeOnA = snd (addShapeToLayer twoLayers 1 (Some ''layer_1''))"

definition withoutDefault :: lm where
  "withoutDefault = snd (projr (deleteLayer shapeOnA ''layer_0''))"

definition transparentLayer :: lm where
  "transparentLayer = snd (setLayerOpacity (new_LayerManager noStore) ''layer_0'' 0)"

section \<open>Evaluation\<close>

lemma sqrt_gt_5: "(sqrt x > 5) = (x > 25)"
proof -
  have "sqrt 25 = 5" using real_sqrt_abs [of 5] by simp
  then show ?thesis using real_sqrt_less_iff [of 25 x] by simp
qed

lemmas editor_eval = run.simps step.simps handleMouseDown_def handleMouseMove_def handleMouseUp_def
  canvasCoord_def snapped_def snapToGridCoord_def js_round_def saveState_def pushState_def
  limitHistory_def jsonCopy_def js_slice0_def js_index_def undo_def redo_def canUndo_def canRedo_def
  initial_def isValidDrawing_def getStrokeColor_def getStrokeWidth_def getFillColor_def
  getCurrentToolProperties_def sqrt_gt_5 Let_def

section \<open>Snapping\<close>

text \<open>Rounding to binary64: evaluation at a known exponent, integers, and the error.\<close>

lemma round_even_of_int [simp]: "round_even (of_int k) = k"
  by (simp add: round_even_def)




lemma ulp64_pos: "0 < ulp64 x"
  by (simp add: ulp64_def)

lemma fl_multiple:
  assumes "x = of_int k * ulp64 x"
  shows "fl x = x"
proof (cases "x = 0")
  case True
  then show ?thesis by (simp add: fl_def)
next
  case False
  have "x / ulp64 x = of_int k"
    using assms ulp64_pos [of x] by (metis less_irrefl nonzero_eq_divide_eq)
  then show ?thesis using assms False by (simp add: fl_def)
qed

lemma exponent64_int:
  assumes "n \<noteq> 0" and "\<bar>n\<bar> < 2 ^ 53"
  shows "0 \<le> exponent64 (of_int n)" and "exponent64 (of_int n) \<le> 52"
proof -
  have one: "1 \<le> \<bar>real_of_int n\<bar>" using assms(1) by linarith
  have "real_of_int \<bar>n\<bar> < real_of_int (2 ^ 53)"
    using assms(2) by (simp only: of_int_less_iff)
  then have lt: "\<bar>real_of_int n\<bar> < 2 ^ 53" by simp
  have "0 \<le> log 2 \<bar>real_of_int n\<bar>" using one by simp
  then show "0 \<le> exponent64 (of_int n)" by (simp add: exponent64_def)
  have "log 2 \<bar>real_of_int n\<bar> < log 2 (2 ^ 53)"
    using one lt by (subst log_less_cancel_iff) simp_all
  moreover have "log 2 (2 ^ 53) = (53::real)"
    using log_pow_cancel [of 2 53] by simp
  ultimately have "log 2 \<bar>real_of_int n\<bar> < 53" by simp
  then have "\<lfloor>log 2 \<bar>real_of_int n\<bar>\<rfloor> \<le> 52" by linarith
  then show "exponent64 (of_int n) \<le> 52" by (simp add: exponent64_def)
qed

lemma fl_of_int:
  assumes "\<bar>n\<bar> < 2 ^ 53"
  shows "fl (of_int n) = of_int n"
proof (cases "n = 0")
  case True
  then show ?thesis by (simp add: fl_def)
next
  case False
  define m where "m = nat (52 - exponent64 (of_int n))"
  have e: "exponent64 (of_int n) - 52 = - int m"
    using exponent64_int [OF False assms] by (simp add: m_def)
  have u: "ulp64 (of_int n) = inverse (2 ^ m)"
    unfolding ulp64_def e by (simp add: power_int_minus)
  have "real_of_int n = of_int (n * 2 ^ m) * ulp64 (of_int n)"
    unfolding u by simp
  then show ?thesis by (rule fl_multiple)
qed


lemma to64_of_int:
  assumes "\<bar>n\<bar> < 2 ^ 53"
  shows "to64 (of_int n) = Inr (of_int n)"
proof -
  have "real_of_int \<bar>n\<bar> < real_of_int (2 ^ 53)"
    using assms by (simp only: of_int_less_iff)
  then have "\<bar>real_of_int n\<bar> < 2 ^ 1024" by simp
  then show ?thesis using fl_of_int [OF assms] by (simp add: to64_def)
qed


lemma js_round_int: "js_round (of_int k) = of_int k"
  by (simp add: js_round_def)




lemma factor_bound:
  assumes "1 \<le> n" and "\<bar>k * n\<bar> < 2 ^ 53"
  shows "\<bar>k\<bar> < (2::int) ^ 53"
proof -
  have "\<bar>k\<bar> * 1 \<le> \<bar>k\<bar> * n" using assms(1) by (intro mult_left_mono) simp_all
  then have "\<bar>k\<bar> \<le> \<bar>k * n\<bar>" using assms(1) by (simp add: abs_mult)
  then show ?thesis using assms(2) by linarith
qed


lemma snapToGridCoord64_fixed:
  assumes "gridSize s = of_int n" and "1 \<le> n" and "\<bar>k * n\<bar> < 2 ^ 53"
  shows "snapToGridCoord64 s (of_int (k * n)) = Inr (of_int (k * n))"
proof -
  have nz: "real_of_int n \<noteq> 0" using assms(2) by simp
  have "real_of_int (k * n) / of_int n = of_int k" using nz by simp
  then have "div64 (of_int (k * n)) (gridSize s) = Inr (of_int k)"
    using to64_of_int [OF factor_bound [OF assms(2,3)]] nz by (simp add: div64_def assms(1))
  moreover have "mul64 (js_round (of_int k)) (gridSize s) = Inr (of_int (k * n))"
    using to64_of_int [OF assms(3)] by (simp add: mul64_def js_round_int assms(1))
  ultimately show ?thesis by (simp add: snapToGridCoord64_def)
qed

text \<open>
  On a grid point the binary64 method returns what the exact one returns: the point
  itself.
\<close>

lemma snapToGridCoord64_on_grid:
  assumes "gridSize s = of_int n" and "1 \<le> n" and "\<bar>k * n\<bar> < 2 ^ 53"
  shows "snapToGridCoord64 s (of_int (k * n)) = Inr (snapToGridCoord s (of_int (k * n)))"
proof -
  have nz: "real_of_int n \<noteq> 0" using assms(2) by simp
  have "real_of_int (k * n) / of_int n = of_int k" using nz by simp
  then have "snapToGridCoord s (of_int (k * n)) = of_int (k * n)"
    by (simp add: snapToGridCoord_def assms(1) js_round_int)
  then show ?thesis using snapToGridCoord64_fixed [OF assms] by simp
qed
















section \<open>Committing a stroke\<close>

text \<open>
  Claim C6.  On pointer-up with a provisional drawing, the drawing is appended to
  \<open>drawings\<close> if and only if it passes the minimum-size validation, and otherwise
  \<open>drawings\<close> is unchanged; a rectangle passes when both \<open>\<bar>endX - startX\<bar>\<close> and
  \<open>\<bar>endY - startY\<bar>\<close> exceed 5, a circle and a line when the Euclidean distance between
  the two points exceeds 5, text always, and any other tool never.  The witness is a
  rectangle drag of 3 by 3, which is discarded, and one of 10 by 10, which is kept.
\<close>

theorem mouseUp_commits_iff_valid:
  assumes "isDrawing s" and "currentPreview s = Some d"
  shows "drawings (handleMouseUp s) = (if isValidDrawing d then drawings s @ [d] else drawings s)
       \<and> (drawings (handleMouseUp s) = drawings s @ [d]) = isValidDrawing d
       \<and> (drawings (handleMouseUp s) = drawings s) = (\<not> isValidDrawing d)
       \<and> currentPreview (handleMouseUp s) = None
       \<and> (tool d = ''rectangle'' \<longrightarrow>
            isValidDrawing d = (\<bar>endX d - startX d\<bar> > 5 \<and> \<bar>endY d - startY d\<bar> > 5))
       \<and> (tool d = ''circle'' \<longrightarrow>
            isValidDrawing d = (sqrt ((endX d - startX d)\<^sup>2 + (endY d - startY d)\<^sup>2) > 5))
       \<and> (tool d = ''line'' \<longrightarrow>
            isValidDrawing d = (sqrt ((endX d - startX d)\<^sup>2 + (endY d - startY d)\<^sup>2) > 5))
       \<and> (tool d = ''text'' \<longrightarrow> isValidDrawing d)
       \<and> (tool d \<noteq> ''rectangle'' \<and> tool d \<noteq> ''circle'' \<and> tool d \<noteq> ''line'' \<and> tool d \<noteq> ''text''
            \<longrightarrow> \<not> isValidDrawing d)"
proof -
  have up: "drawings (handleMouseUp s) = (if isValidDrawing d then drawings s @ [d] else drawings s)"
    using assms by (simp add: handleMouseUp_def Let_def)
  have pv: "currentPreview (handleMouseUp s) = None"
    using assms by (simp add: handleMouseUp_def Let_def)
  have byTool: "(tool d = ''rectangle'' \<longrightarrow>
            isValidDrawing d = (\<bar>endX d - startX d\<bar> > 5 \<and> \<bar>endY d - startY d\<bar> > 5))
       \<and> (tool d = ''circle'' \<longrightarrow>
            isValidDrawing d = (sqrt ((endX d - startX d)\<^sup>2 + (endY d - startY d)\<^sup>2) > 5))
       \<and> (tool d = ''line'' \<longrightarrow>
            isValidDrawing d = (sqrt ((endX d - startX d)\<^sup>2 + (endY d - startY d)\<^sup>2) > 5))
       \<and> (tool d = ''text'' \<longrightarrow> isValidDrawing d)
       \<and> (tool d \<noteq> ''rectangle'' \<and> tool d \<noteq> ''circle'' \<and> tool d \<noteq> ''line'' \<and> tool d \<noteq> ''text''
            \<longrightarrow> \<not> isValidDrawing d)"
    by (simp add: isValidDrawing_def Let_def)
  from up have "(drawings (handleMouseUp s) = drawings s @ [d]) = isValidDrawing d"
    and "(drawings (handleMouseUp s) = drawings s) = (\<not> isValidDrawing d)"
    by auto
  with up pv byTool show ?thesis by blast
qed

theorem mouseUp_commits_iff_valid_witness:
  "isDrawing (dragging (rectangleDrag 3 3))
   \<and> currentPreview (dragging (rectangleDrag 3 3)) = Some (rectangleDrag 3 3)
   \<and> \<not> isValidDrawing (rectangleDrag 3 3)
   \<and> drawings (handleMouseUp (dragging (rectangleDrag 3 3))) = []
   \<and> isDrawing (dragging (rectangleDrag 10 10))
   \<and> currentPreview (dragging (rectangleDrag 10 10)) = Some (rectangleDrag 10 10)
   \<and> isValidDrawing (rectangleDrag 10 10)
   \<and> drawings (handleMouseUp (dragging (rectangleDrag 10 10))) = [rectangleDrag 10 10]"
proof -
  have a: "isDrawing (dragging d)" "currentPreview (dragging d) = Some d"
    "drawings (dragging d) = []" for d
    by (simp_all add: dragging_def initial_def)
  have t: "tool (rectangleDrag w h) = ''rectangle''"
    "\<bar>endX (rectangleDrag w h) - startX (rectangleDrag w h)\<bar> = \<bar>w\<bar>"
    "\<bar>endY (rectangleDrag w h) - startY (rectangleDrag w h)\<bar> = \<bar>h\<bar>" for w h
    by (simp_all add: rectangleDrag_def)
  show ?thesis
    using mouseUp_commits_iff_valid [OF a(1) a(2), of "rectangleDrag 3 3"]
      mouseUp_commits_iff_valid [OF a(1) a(2), of "rectangleDrag 10 10"]
    by (simp add: a t)
qed

section \<open>The history stays within its capacity\<close>

lemma pushState_length:
  assumes "- 1 \<le> historyIndex s" and "historyIndex s < int (length (history s))"
  shows "int (length (history (pushState s))) = historyIndex s + 2"
  using assms by (auto simp: pushState_def js_slice0_def Let_def)

lemma pushState_index [simp]: "historyIndex (pushState s) = historyIndex s + 1"
  by (simp add: pushState_def Let_def)

lemma pushState_max [simp]: "maxHistorySize (pushState s) = maxHistorySize s"
  by (simp add: pushState_def Let_def)

lemma saveState_max [simp]: "maxHistorySize (saveState s) = maxHistorySize s"
  by (simp add: saveState_def limitHistory_def)

lemma saveState_histOk: "histOk s \<Longrightarrow> histOk (saveState s)"
  using pushState_length [of s]
  by (auto simp: histOk_def saveState_def limitHistory_def)

lemma saveState_histOk_upd:
  "histOk s \<Longrightarrow> history s' = history s \<Longrightarrow> historyIndex s' = historyIndex s
   \<Longrightarrow> maxHistorySize s' = maxHistorySize s \<Longrightarrow> histOk (saveState s')"
  using saveState_histOk [of s'] by (simp add: histOk_def)

lemma undo_histOk: "histOk s \<Longrightarrow> undo s = Inr s' \<Longrightarrow> histOk s'"
  by (auto simp: histOk_def undo_def canUndo_def split: if_splits option.splits)

lemma redo_histOk: "histOk s \<Longrightarrow> redo s = Inr s' \<Longrightarrow> histOk s'"
  by (auto simp: histOk_def redo_def canRedo_def split: if_splits option.splits)

lemma handleMouseDown_histOk: "histOk s \<Longrightarrow> handleMouseDown s e ev = Inr s' \<Longrightarrow> histOk s'"
proof -
  assume h: "histOk s" and r: "handleMouseDown s e ev = Inr s'"
  have k: "\<And>t. history t = history s \<Longrightarrow> historyIndex t = historyIndex s
      \<Longrightarrow> maxHistorySize t = maxHistorySize s \<Longrightarrow> histOk (saveState t)"
    using saveState_histOk_upd [OF h] by blast
  have u: "\<And>t p. histOk t \<Longrightarrow> histOk (t\<lparr> currentPreview := p \<rparr>)"
    by (simp add: histOk_def)
  show ?thesis
    using r h
    by (auto simp: handleMouseDown_def Let_def histOk_def [of "s\<lparr>cd_startX := _, cd_startY := _\<rparr>"]
          histOk_def [of s] intro!: u k split: sum.splits if_splits)
qed

lemma step_histOk: "histOk s \<Longrightarrow> step a s = Inr s' \<Longrightarrow> histOk s'"
proof (cases a)
  case (MouseDown e ev)
  then show "histOk s \<Longrightarrow> step a s = Inr s' \<Longrightarrow> histOk s'"
    using handleMouseDown_histOk by simp
next
  case (MouseMove e ev)
  then show "histOk s \<Longrightarrow> step a s = Inr s' \<Longrightarrow> histOk s'"
    by (auto simp: handleMouseMove_def histOk_def split: sum.splits option.splits if_splits)
next
  case Clear
  then show "histOk s \<Longrightarrow> step a s = Inr s' \<Longrightarrow> histOk s'"
    using saveState_histOk_upd [of s "s\<lparr>drawings := []\<rparr>"] by (auto simp: clear_def)
next
  case Undo
  then show "histOk s \<Longrightarrow> step a s = Inr s' \<Longrightarrow> histOk s'"
    using undo_histOk by simp
next
  case Redo
  then show "histOk s \<Longrightarrow> step a s = Inr s' \<Longrightarrow> histOk s'"
    using redo_histOk by simp
qed (auto simp: histOk_def handleMouseUp_def handleMouseLeave_def handleWheel_def zoomIn_def
      zoomOut_def resetZoom_def fitToScreen_def destroy_def Let_def split: option.splits)

lemma reachable_histOk: "reachable s \<Longrightarrow> histOk s"
proof (induction rule: reachable.induct)
  case reachable_initial
  show ?case by (simp add: histOk_def initial_def)
next
  case (reachable_step s a s')
  then show ?case using step_histOk by blast
qed

lemma reachable_clears: "reachable ((clear ^^ n) initial)"
proof (induction n)
  case 0
  show ?case by (simp add: reachable_initial)
next
  case (Suc n)
  have "step Clear ((clear ^^ n) initial) = Inr ((clear ^^ Suc n) initial)" by simp
  with Suc show ?case by (rule reachable_step)
qed

lemma clears_eval:
  "n \<le> 50 \<Longrightarrow> (clear ^^ n) initial = initial\<lparr> history := replicate n [], historyIndex := int n - 1 \<rparr>"
proof (induction n)
  case 0
  show ?case by (simp add: initial_def)
next
  case (Suc n)
  then have "(clear ^^ n) initial = initial\<lparr> history := replicate n [], historyIndex := int n - 1 \<rparr>"
    by simp
  then have "(clear ^^ Suc n) initial
      = clear (initial\<lparr> history := replicate n [], historyIndex := int n - 1 \<rparr>)"
    by simp
  also have "\<dots> = initial\<lparr> history := replicate (Suc n) [], historyIndex := int (Suc n) - 1 \<rparr>"
    using Suc.prems
    by (simp add: clear_def saveState_def pushState_def limitHistory_def jsonCopy_def Let_def
          initial_def replicate_append_same)
  finally show ?case .
qed

lemma fullHistory_eval:
  "history fullHistory = replicate 50 [] \<and> historyIndex fullHistory = 49 \<and> drawings fullHistory = []"
  unfolding fullHistory_def using clears_eval [of 50] by (simp add: initial_def)

text \<open>
  Claim C8.  In every reachable state \<open>maxHistorySize\<close> is 50 and after \<^verbatim>\<open>saveState\<close> the
  history holds at most that many snapshots.  When the push makes the history longer
  than the bound, the oldest snapshot is dropped and \<open>historyIndex\<close> goes down by one;
  \<^verbatim>\<open>canUndo\<close> and \<^verbatim>\<open>canRedo\<close> answer after \<^verbatim>\<open>saveState\<close> what they answer after the push
  alone.
\<close>

theorem saveState_bounded:
  assumes "reachable s"
  shows "maxHistorySize s = 50
       \<and> int (length (history (saveState s))) \<le> maxHistorySize s
       \<and> (int (length (history (pushState s))) > maxHistorySize s \<longrightarrow>
            history (saveState s) = tl (history (pushState s))
          \<and> historyIndex (saveState s) = historyIndex (pushState s) - 1)
       \<and> (int (length (history (pushState s))) \<le> maxHistorySize s \<longrightarrow>
            saveState s = pushState s)
       \<and> canUndo (saveState s) = canUndo (pushState s)
       \<and> canRedo (saveState s) = canRedo (pushState s)"
proof -
  have h: "histOk s" using assms by (rule reachable_histOk)
  then have len: "int (length (history (pushState s))) = historyIndex s + 2"
    using pushState_length [of s] by (simp add: histOk_def)
  have "histOk (saveState s)" using h by (rule saveState_histOk)
  then have bound: "int (length (history (saveState s))) \<le> maxHistorySize s"
    by (simp add: histOk_def)
  have m: "maxHistorySize s = 50" using h by (simp add: histOk_def)
  have ev: "int (length (history (pushState s))) > maxHistorySize s \<longrightarrow>
            history (saveState s) = tl (history (pushState s))
          \<and> historyIndex (saveState s) = historyIndex (pushState s) - 1"
    by (simp add: saveState_def limitHistory_def)
  have nev: "int (length (history (pushState s))) \<le> maxHistorySize s \<longrightarrow> saveState s = pushState s"
    by (simp add: saveState_def limitHistory_def)
  have cu: "canUndo (saveState s) = canUndo (pushState s)"
    using len m by (auto simp: saveState_def limitHistory_def canUndo_def)
  have cr: "canRedo (saveState s) = canRedo (pushState s)"
    using len m by (auto simp: saveState_def limitHistory_def canRedo_def)
  show ?thesis using m bound ev nev cu cr by blast
qed

theorem saveState_bounded_witness:
  "reachable fullHistory
   \<and> length (history fullHistory) = 50
   \<and> length (history (pushState fullHistory)) = 51
   \<and> length (history (saveState fullHistory)) = 50
   \<and> historyIndex (pushState fullHistory) = 50
   \<and> historyIndex (saveState fullHistory) = 49
   \<and> canUndo (saveState fullHistory) \<and> canUndo (pushState fullHistory)
   \<and> \<not> canRedo (saveState fullHistory) \<and> \<not> canRedo (pushState fullHistory)"
proof -
  have r: "reachable fullHistory"
    unfolding fullHistory_def by (rule reachable_clears)
  have p: "length (history (pushState fullHistory)) = 51" "historyIndex (pushState fullHistory) = 50"
    using fullHistory_eval by (simp_all add: pushState_def Let_def)
  show ?thesis
    using saveState_bounded [OF r] r p fullHistory_eval
    by (simp add: canUndo_def canRedo_def)
qed

section \<open>Undo and redo after a stroke\<close>

text \<open>
  Where \<^verbatim>\<open>undo\<close> has a snapshot to go back to, \<^verbatim>\<open>redo\<close> after it returns to the snapshot
  at the index \<^verbatim>\<open>undo\<close> started from, whatever the scene held at that moment.
\<close>

lemma undo_then_redo:
  assumes "0 < historyIndex s" and "historyIndex s < int (length (history s))"
  shows "\<exists>s1 s2. undo s = Inr s1 \<and> redo s1 = Inr s2
           \<and> historyIndex s2 = historyIndex s
           \<and> drawings s2 = history s ! nat (historyIndex s)"
  using assms
  by (simp add: undo_def redo_def canUndo_def canRedo_def js_index_def jsonCopy_def)

text \<open>
  Claim C1, evaluated.  A fresh editor with the line tool draws one line from (0, 0) to
  (100, 0): the history holds the empty scene only, at index 0, so \<^verbatim>\<open>undo\<close> returns the
  state unchanged and the line stays.  After a second line \<^verbatim>\<open>undo\<close> empties the scene,
  and \<^verbatim>\<open>redo\<close> brings back the first line only, not the two lines the scene held before
  that \<^verbatim>\<open>undo\<close>.
\<close>

theorem undo_redo_lose_committed_shape:
  "run [SetTool ''line'', MouseDown dom0 (pt 0 0), MouseMove dom0 (pt 100 0), MouseUp] initial
     = Inr afterLine
   \<and> drawings afterLine = [lineFrom 0 0 100 0]
   \<and> undo afterLine = Inr afterLine
   \<and> run [MouseDown dom0 (pt 40 40), MouseMove dom0 (pt 40 100), MouseUp] afterLine
     = Inr afterTwoLines
   \<and> drawings afterTwoLines = [lineFrom 0 0 100 0, lineFrom 40 40 40 100]
   \<and> undo afterTwoLines = Inr (afterTwoLines\<lparr> historyIndex := 0, drawings := [] \<rparr>)
   \<and> redo (afterTwoLines\<lparr> historyIndex := 0, drawings := [] \<rparr>)
     = Inr (afterTwoLines\<lparr> historyIndex := 1, drawings := [lineFrom 0 0 100 0] \<rparr>)"
  by (simp add: editor_eval dom0_def pt_def lineFrom_def afterLine_def afterTwoLines_def)

section \<open>Zoom\<close>

text \<open>
  The wheel and the three zoom buttons keep a zoom factor that is within 0.1 and 5
  there, and \<^verbatim>\<open>fitToScreen\<close> keeps it at most 5.
\<close>

lemma zoom_steps_in_range:
  assumes "1 / 10 \<le> zoom s" and "zoom s \<le> 5"
  shows "1 / 10 \<le> zoom (handleWheel s dy) \<and> zoom (handleWheel s dy) \<le> 5"
    and "1 / 10 \<le> zoom (zoomIn s) \<and> zoom (zoomIn s) \<le> 5"
    and "1 / 10 \<le> zoom (zoomOut s) \<and> zoom (zoomOut s) \<le> 5"
    and "1 / 10 \<le> zoom (resetZoom s) \<and> zoom (resetZoom s) \<le> 5"
    and "zoom (fitToScreen s e) \<le> 5"
  using assms
  by (auto simp: handleWheel_def zoomIn_def zoomOut_def resetZoom_def fitToScreen_def Let_def)

text \<open>
  Claim C7, evaluated.  Thirteen calls of \<^verbatim>\<open>zoomOut\<close> bring the zoom to 0.1; a line
  across the 800 by 600 canvas then runs from (0, 0) to (8000, 6000), and
  \<^verbatim>\<open>fitToScreen\<close> sets the zoom to 0.08, below 0.1.
\<close>

theorem fitToScreen_leaves_zoom_range:
  "run (replicate 13 ZoomOut @ [SetTool ''line'', MouseDown dom0 (pt 0 0),
                                MouseMove dom0 (pt 800 600), MouseUp]) initial = Inr zoomedOut
   \<and> zoom zoomedOut = 1 / 10
   \<and> zoom (fitToScreen zoomedOut dom0) = 8 / 100
   \<and> zoom (fitToScreen zoomedOut dom0) < 1 / 10"
  by (simp add: editor_eval dom0_def pt_def lineFrom_def zoomedOut_def eval_nat_numeral
        zoomOut_def fitToScreen_def boundLow_def boundHigh_def)

section \<open>Layers and shapes\<close>

text \<open>
  Claim C10.  When \<^verbatim>\<open>addShapeToLayer\<close> returns \<^verbatim>\<open>false\<close> the manager is unchanged: every
  layer's shape list, the shape's \<^verbatim>\<open>layer\<close> field and the layers that own the shape are
  what they were.
\<close>

theorem addShapeToLayer_false_unchanged:
  assumes "\<not> fst (addShapeToLayer m shape layerId)"
  shows "snd (addShapeToLayer m shape layerId) = m
       \<and> layers (snd (addShapeToLayer m shape layerId)) = layers m
       \<and> shapeLayer (snd (addShapeToLayer m shape layerId)) shape = shapeLayer m shape
       \<and> ownersOf (snd (addShapeToLayer m shape layerId)) shape = ownersOf m shape"
proof -
  have "snd (addShapeToLayer m shape layerId) = m"
    using assms
    by (auto simp: addShapeToLayer_def Let_def split: option.splits if_splits)
  then show ?thesis by simp
qed

theorem addShapeToLayer_false_unchanged_witness:
  "\<not> fst (addShapeToLayer shapeOnDefault 1 (Some ''layer_1''))
   \<and> snd (addShapeToLayer shapeOnDefault 1 (Some ''layer_1'')) = shapeOnDefault
   \<and> ownersOf (snd (addShapeToLayer shapeOnDefault 1 (Some ''layer_1''))) 1 = [''layer_0'']
   \<and> shapeLayer (snd (addShapeToLayer shapeOnDefault 1 (Some ''layer_1''))) 1 = Some ''layer_0''"
proof -
  have f: "\<not> fst (addShapeToLayer shapeOnDefault 1 (Some ''layer_1''))"
    by code_simp
  have o: "ownersOf shapeOnDefault 1 = [''layer_0'']"
    by code_simp
  have l: "shapeLayer shapeOnDefault 1 = Some ''layer_0''"
    by code_simp
  show ?thesis
    using addShapeToLayer_false_unchanged [OF f] f o l by simp
qed

text \<open>A move that returns \<^verbatim>\<open>false\<close> has removed the shape from every layer.\<close>

lemma failed_move_is_removal:
  assumes "\<not> fst (moveShapeToLayer m shape t)"
  shows "snd (moveShapeToLayer m shape t) = removeShapeFromAllLayers m shape"
  using assms
  by (auto simp: moveShapeToLayer_def addShapeToLayer_def Let_def split: option.splits if_splits)

text \<open>
  Claim C3, evaluated.  A manager has the default layer and a locked layer
  \<^verbatim>\<open>layer_1\<close>; shape 1 is added and sits on the default layer.
  \<^verbatim>\<open>moveShapeToLayer(shape, 'layer_1')\<close> returns \<^verbatim>\<open>false\<close> and leaves the shape on no layer.
\<close>

theorem failed_move_leaves_shape_without_layer:
  "fst (addShapeToLayer withLockedLayer 1 None)
   \<and> ownersOf shapeOnDefault 1 = [''layer_0'']
   \<and> fst (moveShapeToLayer shapeOnDefault 1 (Some ''layer_1'')) = False
   \<and> ownersOf (snd (moveShapeToLayer shapeOnDefault 1 (Some ''layer_1''))) 1 = []
   \<and> getShapeLayer (snd (moveShapeToLayer shapeOnDefault 1 (Some ''layer_1''))) 1 = None
   \<and> shapeLayer (snd (moveShapeToLayer shapeOnDefault 1 (Some ''layer_1''))) 1 = None"
  by code_simp

text \<open>
  The last layer is never deleted; with no layer stored under \<^verbatim>\<open>'layer_0'\<close>, deleting a
  layer that owns a shape throws.
\<close>

lemma deleteLayer_last_layer:
  assumes "length (layers m) \<le> 1"
  shows "deleteLayer m k = Inr (False, m)"
  using assms by (simp add: deleteLayer_def split: option.splits)

lemma deleteLayer_without_default:
  assumes "map_of (layers m) k = Some l" and "1 < length (layers m)"
    and "getDefaultLayer m = None" and "shapes l \<noteq> []"
  shows "deleteLayer m k = Inl TypeError"
  using assms by (simp add: deleteLayer_def)

text \<open>
  Claim C4, evaluated.  A manager has the default layer and the layers \<^verbatim>\<open>layer_1\<close>, which
  owns shape 1, and \<^verbatim>\<open>layer_2\<close>.  Deleting the default layer succeeds; deleting
  \<^verbatim>\<open>layer_1\<close> from the two layers that remain throws a \<^verbatim>\<open>TypeError\<close>.
\<close>

theorem deleteLayer_throws_without_default:
  "map_sum id fst (deleteLayer shapeOnA ''layer_0'') = Inr True
   \<and> map fst (layers withoutDefault) = [''layer_1'', ''layer_2'']
   \<and> layerOrder withoutDefault = [''layer_1'', ''layer_2'']
   \<and> ownersOf withoutDefault 1 = [''layer_1'']
   \<and> map_sum id fst (deleteLayer withoutDefault ''layer_1'') = Inl TypeError"
  by code_simp

text \<open>
  What the import of an exported layer is: the layer without its shapes, with opacity 0
  replaced by 1 and an empty colour by black.
\<close>

lemma importLayer_toJSON:
  "importLayer (toJSON l) =
     l\<lparr> shapes := [],
        opacity := (if opacity l = 0 then 1 else opacity l),
        layer_color := (if layer_color l = [] then ''#000000'' else layer_color l) \<rparr>"
  by (simp add: importLayer_def toJSON_def new_Layer_def)

text \<open>
  Claim C5, evaluated.  After \<^verbatim>\<open>setLayerOpacity('layer_0', 0)\<close> the default layer has
  opacity 0; importing the exported data, into the same manager or into a new one,
  gives the layer opacity 1.
\<close>

theorem opacity_zero_lost_on_import:
  "map (\<lambda>(k, l). opacity l) (layers transparentLayer) = [0]
   \<and> map (\<lambda>(k, l). opacity l)
        (layers (importLayers transparentLayer (exportLayers transparentLayer))) = [1]
   \<and> map (\<lambda>(k, l). opacity l)
        (layers (importLayers (new_LayerManager noStore) (exportLayers transparentLayer))) = [1]"
  by code_simp

section \<open>Commits followed by undos\<close>

lemma run_append:
  "run (as @ bs) s = (case run as s of Inl err \<Rightarrow> Inl err | Inr s' \<Rightarrow> run bs s')"
  by (induction as arbitrary: s) (auto split: sum.splits)

lemma reachable_run: "reachable s \<Longrightarrow> run as s = Inr s' \<Longrightarrow> reachable s'"
proof (induction as arbitrary: s)
  case Nil
  then show ?case by simp
next
  case (Cons a as)
  then obtain s1 where a: "step a s = Inr s1" and r: "run as s1 = Inr s'"
    by (auto split: sum.splits)
  have "reachable s1" using Cons.prems(1) a by (rule reachable_step)
  then show ?case using r by (rule Cons.IH)
qed

subsection \<open>What saveState leaves alone\<close>

lemma saveState_fields [simp]:
  "isDrawing (saveState t) = isDrawing t"
  "currentPreview (saveState t) = currentPreview t"
  "cd_startX (saveState t) = cd_startX t"
  "cd_startY (saveState t) = cd_startY t"
  "gridSize (saveState t) = gridSize t"
  "cd_snapToGrid (saveState t) = cd_snapToGrid t"
  "drawings (saveState t) = drawings t"
  "zoom (saveState t) = zoom t"
  "currentTool (saveState t) = currentTool t"
  by (simp_all add: saveState_def limitHistory_def pushState_def Let_def)

lemma saveState_frame:
  assumes "history t = history s" and "historyIndex t = historyIndex s"
    and "maxHistorySize t = maxHistorySize s" and "drawings t = drawings s"
  shows "history (saveState t) = history (saveState s)"
    and "historyIndex (saveState t) = historyIndex (saveState s)"
  using assms by (simp_all add: saveState_def limitHistory_def pushState_def Let_def)

subsection \<open>One committing stroke\<close>

lemma stroke_commit:
  assumes "commits s k"
  shows "\<exists>s' d. run (strokeActions k) s = Inr s'
           \<and> history s' = history (saveState s)
           \<and> historyIndex s' = historyIndex (saveState s)
           \<and> maxHistorySize s' = maxHistorySize s
           \<and> drawings s' = drawings s @ [d]"
proof -
  from assms have tl: "currentTool s \<noteq> ''select''" by (simp add: commits_def)
  from assms obtain s' where r: "run (strokeActions k) s = Inr s'"
    and len: "length (drawings s') = Suc (length (drawings s))"
    by (auto simp: commits_def split: sum.splits)
  from r obtain sd sm where d: "handleMouseDown s (pressDom k) (press k) = Inr sd"
    and m: "handleMouseMove sd (dragDom k) (drag k) = Inr sm"
    and u: "s' = handleMouseUp sm"
    by (auto simp: strokeActions_def split: sum.splits)
  from d tl obtain x y p where sd: "sd = (saveState (s\<lparr> cd_startX := x, cd_startY := y,
        isDrawing := True \<rparr>))\<lparr> currentPreview := Some p \<rparr>"
    by (auto simp: handleMouseDown_def Let_def split: sum.splits)
  let ?t = "s\<lparr> cd_startX := x, cd_startY := y, isDrawing := True \<rparr>"
  from m sd obtain q where sm: "sm = sd\<lparr> currentPreview := Some q \<rparr>"
    by (auto simp: handleMouseMove_def split: sum.splits)
  have h: "history sm = history (saveState s)" "historyIndex sm = historyIndex (saveState s)"
    using saveState_frame [of ?t s] by (simp_all add: sm sd)
  have mx: "maxHistorySize sm = maxHistorySize s"
    by (simp add: sm sd saveState_def limitHistory_def pushState_def Let_def)
  have dr: "drawings sm = drawings s" by (simp add: sm sd)
  have pv: "currentPreview sm = Some q" "isDrawing sm" by (simp_all add: sm sd)
  have "isValidDrawing q"
  proof (rule ccontr)
    assume "\<not> isValidDrawing q"
    then have "drawings s' = drawings s"
      using pv dr by (simp add: u handleMouseUp_def Let_def)
    with len show False by simp
  qed
  then have "drawings s' = drawings s @ [q]" "history s' = history sm"
    "historyIndex s' = historyIndex sm" "maxHistorySize s' = maxHistorySize sm"
    using pv dr by (simp_all add: u handleMouseUp_def Let_def)
  with r h mx show ?thesis by auto
qed

subsection \<open>Where saveState puts the snapshots\<close>

lemma pushState_history:
  assumes "histOk s"
  shows "history (pushState s) = take (nat (historyIndex s + 1)) (history s) @ [drawings s]"
  using assms by (auto simp: histOk_def pushState_def js_slice0_def jsonCopy_def Let_def)

lemma saveState_index:
  assumes "histOk s"
  shows "historyIndex (saveState s) = min (historyIndex s + 1) 49"
  using assms pushState_length [of s]
  by (auto simp: histOk_def saveState_def limitHistory_def)

lemma saveState_at_cursor:
  assumes "histOk s"
  shows "history (saveState s) ! nat (historyIndex (saveState s)) = drawings s"
proof -
  let ?h = "take (nat (historyIndex s + 1)) (history s)"
  have l: "length ?h = nat (historyIndex s + 1)"
    using assms by (auto simp: histOk_def)
  show ?thesis
  proof (cases "int (length (history (pushState s))) > maxHistorySize (pushState s)")
    case False
    then have "saveState s = pushState s" by (simp add: saveState_def limitHistory_def)
    then show ?thesis using assms l by (simp add: pushState_history nth_append)
  next
    case True
    then have i: "historyIndex s = 49"
      using assms pushState_length [of s] by (auto simp: histOk_def)
    have "history (saveState s) = tl (?h @ [drawings s])" "historyIndex (saveState s) = 49"
      using True assms i by (simp_all add: saveState_def limitHistory_def pushState_history)
    then show ?thesis using l i by (simp add: nth_tl nth_append)
  qed
qed

lemma saveState_keeps:
  assumes "histOk s" and "int k \<le> historyIndex s"
    and "history s ! nat (historyIndex s - int k) = X"
    and "int k + 1 \<le> historyIndex (saveState s)"
  shows "history (saveState s) ! nat (historyIndex (saveState s) - (int k + 1)) = X"
proof -
  let ?h = "take (nat (historyIndex s + 1)) (history s)"
  have l: "length ?h = nat (historyIndex s + 1)"
    using assms(1) by (auto simp: histOk_def)
  have old: "(?h @ [drawings s]) ! nat (historyIndex s - int k) = X"
    using assms(2,3) l by (simp add: nth_append)
  show ?thesis
  proof (cases "int (length (history (pushState s))) > maxHistorySize (pushState s)")
    case False
    then have "saveState s = pushState s" by (simp add: saveState_def limitHistory_def)
    then show ?thesis using assms(1) old by (simp add: pushState_history)
  next
    case True
    then have i: "historyIndex s = 49"
      using assms(1) pushState_length [of s] by (auto simp: histOk_def)
    have e: "history (saveState s) = tl (?h @ [drawings s])" "historyIndex (saveState s) = 49"
      using True assms(1) i by (simp_all add: saveState_def limitHistory_def pushState_history)
    have "Suc (nat (48 - int k)) = nat (49 - int k)" using assms(4) e by simp
    then show ?thesis using old assms(4) l i e by (simp add: nth_tl)
  qed
qed

subsection \<open>A sequence of committing strokes\<close>

lemma stroke_step:
  assumes "histOk s" and "commits s k"
  shows "\<exists>s'. run (strokeActions k) s = Inr s' \<and> histOk s'
           \<and> historyIndex s' = min (historyIndex s + 1) 49
           \<and> length (drawings s') = Suc (length (drawings s))
           \<and> history s' ! nat (historyIndex s') = drawings s
           \<and> (\<forall>j X. int j \<le> historyIndex s \<longrightarrow> history s ! nat (historyIndex s - int j) = X
                 \<longrightarrow> int j + 1 \<le> historyIndex s'
                 \<longrightarrow> history s' ! nat (historyIndex s' - (int j + 1)) = X)"
proof -
  from stroke_commit [OF assms(2)] obtain s' d where r: "run (strokeActions k) s = Inr s'"
    and h: "history s' = history (saveState s)" "historyIndex s' = historyIndex (saveState s)"
    and m: "maxHistorySize s' = maxHistorySize s"
    and d: "drawings s' = drawings s @ [d]"
    by blast
  have ok: "histOk s'"
    using saveState_histOk [OF assms(1)] h m by (simp add: histOk_def)
  have i: "historyIndex s' = min (historyIndex s + 1) 49"
    using saveState_index [OF assms(1)] h by simp
  have c: "history s' ! nat (historyIndex s') = drawings s"
    using saveState_at_cursor [OF assms(1)] h by simp
  have t: "\<forall>j X. int j \<le> historyIndex s \<longrightarrow> history s ! nat (historyIndex s - int j) = X
                 \<longrightarrow> int j + 1 \<le> historyIndex s'
                 \<longrightarrow> history s' ! nat (historyIndex s' - (int j + 1)) = X"
    using saveState_keeps [OF assms(1)] h by simp
  show ?thesis using r ok i c t d by auto
qed

lemma strokes_run:
  assumes "histOk s" and "commitsAll s ks"
  shows "\<exists>s'. run (strokes ks) s = Inr s' \<and> histOk s'
           \<and> historyIndex s' = min (historyIndex s + int (length ks)) (max (historyIndex s) 49)
           \<and> length (drawings s') = length (drawings s) + length ks
           \<and> (\<forall>j X. int j \<le> historyIndex s \<longrightarrow> history s ! nat (historyIndex s - int j) = X
                 \<longrightarrow> int j + int (length ks) \<le> historyIndex s'
                 \<longrightarrow> history s' ! nat (historyIndex s' - (int j + int (length ks))) = X)"
  using assms
proof (induction ks arbitrary: s)
  case Nil
  then show ?case by (simp add: strokes_def)
next
  case (Cons k ks)
  from Cons.prems(2) have ck: "commits s k" by simp
  from stroke_step [OF Cons.prems(1) ck] obtain s1 where
    r1: "run (strokeActions k) s = Inr s1" and ok1: "histOk s1"
    and i1: "historyIndex s1 = min (historyIndex s + 1) 49"
    and d1: "length (drawings s1) = Suc (length (drawings s))"
    and t1: "\<And>j X. int j \<le> historyIndex s \<Longrightarrow> history s ! nat (historyIndex s - int j) = X
                 \<Longrightarrow> int j + 1 \<le> historyIndex s1
                 \<Longrightarrow> history s1 ! nat (historyIndex s1 - (int j + 1)) = X"
    by blast
  from Cons.prems(2) r1 have "commitsAll s1 ks" by simp
  from Cons.IH [OF ok1 this] obtain s' where
    r: "run (strokes ks) s1 = Inr s'" and ok: "histOk s'"
    and i: "historyIndex s' = min (historyIndex s1 + int (length ks)) (max (historyIndex s1) 49)"
    and d: "length (drawings s') = length (drawings s1) + length ks"
    and t: "\<And>j X. int j \<le> historyIndex s1 \<Longrightarrow> history s1 ! nat (historyIndex s1 - int j) = X
                 \<Longrightarrow> int j + int (length ks) \<le> historyIndex s'
                 \<Longrightarrow> history s' ! nat (historyIndex s' - (int j + int (length ks))) = X"
    by blast
  have b: "historyIndex s \<le> 49" using Cons.prems(1) by (simp add: histOk_def)
  have run: "run (strokes (k # ks)) s = Inr s'"
    using r1 r by (simp add: strokes_def run_append)
  have idx: "historyIndex s' = min (historyIndex s + int (length (k # ks))) (max (historyIndex s) 49)"
    using i i1 b by auto
  have len: "length (drawings s') = length (drawings s) + length (k # ks)"
    using d d1 by simp
  have keep: "history s' ! nat (historyIndex s' - (int j + int (length (k # ks)))) = X"
    if a: "int j \<le> historyIndex s" "history s ! nat (historyIndex s - int j) = X"
      "int j + int (length (k # ks)) \<le> historyIndex s'" for j X
  proof -
    have le1: "int (Suc j) \<le> historyIndex s1" using a(3) i i1 b by auto
    then have "history s1 ! nat (historyIndex s1 - int (Suc j)) = X"
      using t1 [OF a(1) a(2)] by (simp add: algebra_simps)
    from t [OF le1 this] a(3) show ?thesis by (simp add: algebra_simps)
  qed
  show ?case using run ok idx len keep by blast
qed

subsection \<open>A sequence of undos\<close>

lemma undos_run:
  assumes "0 \<le> historyIndex t" and "historyIndex t < int (length (history t))"
  shows "\<exists>t'. run (replicate n Undo) t = Inr t' \<and> history t' = history t
           \<and> historyIndex t' = max (historyIndex t - int n) 0
           \<and> (if 0 < n \<and> 0 < historyIndex t
               then drawings t' = history t ! nat (historyIndex t')
               else drawings t' = drawings t)"
  using assms
proof (induction n arbitrary: t)
  case 0
  then show ?case by simp
next
  case (Suc n)
  show ?case
  proof (cases "0 < historyIndex t")
    case False
    then have u: "undo t = Inr t" by (simp add: undo_def canUndo_def)
    from Suc.IH [OF Suc.prems] obtain t' where
      "run (replicate n Undo) t = Inr t'" "history t' = history t"
      "historyIndex t' = max (historyIndex t - int n) 0"
      "if 0 < n \<and> 0 < historyIndex t then drawings t' = history t ! nat (historyIndex t')
       else drawings t' = drawings t"
      by blast
    then show ?thesis using u False by auto
  next
    case True
    let ?t1 = "t\<lparr> historyIndex := historyIndex t - 1,
                  drawings := history t ! nat (historyIndex t - 1) \<rparr>"
    have u: "undo t = Inr ?t1"
      using True Suc.prems by (simp add: undo_def canUndo_def js_index_def jsonCopy_def)
    have p: "0 \<le> historyIndex ?t1" "historyIndex ?t1 < int (length (history ?t1))"
      using True Suc.prems by simp_all
    from Suc.IH [OF p] obtain t' where
      r: "run (replicate n Undo) ?t1 = Inr t'" and h: "history t' = history t"
      and i: "historyIndex t' = max (historyIndex t - 1 - int n) 0"
      and d: "if 0 < n \<and> 0 < historyIndex t - 1
              then drawings t' = history t ! nat (historyIndex t')
              else drawings t' = history t ! nat (historyIndex t - 1)"
      by auto
    have "drawings t' = history t ! nat (historyIndex t')"
      using d i True by (auto split: if_splits)
    then show ?thesis using u r h i True by auto
  qed
qed

subsection \<open>Commits followed by as many undos\<close>

text \<open>
  Claim C2, amended.  Take a reachable state in which the history is not empty and the
  snapshot at \<open>historyIndex\<close> equals \<open>drawings\<close> (as after \<^verbatim>\<open>clear\<close>, \<^verbatim>\<open>undo\<close>, \<^verbatim>\<open>redo\<close> or
  a cancelled stroke), and any sequence of at most 50 strokes that each commit a shape.
  The strokes run, and as many calls of \<^verbatim>\<open>undo\<close> after them leave \<open>drawings\<close> equal to
  the list before the sequence.
\<close>

theorem commits_then_undos_restore:
  assumes "reachable s" and "0 \<le> historyIndex s"
    and "history s ! nat (historyIndex s) = drawings s"
    and "length ks \<le> 50" and "commitsAll s ks"
  shows "\<exists>s1 s2. run (strokes ks) s = Inr s1
           \<and> length (drawings s1) = length (drawings s) + length ks
           \<and> run (replicate (length ks) Undo) s1 = Inr s2
           \<and> drawings s2 = drawings s"
proof (cases ks)
  case Nil
  then show ?thesis by (simp add: strokes_def)
next
  case (Cons k rest)
  have ok: "histOk s" using assms(1) by (rule reachable_histOk)
  then have b: "historyIndex s \<le> 49" by (simp add: histOk_def)
  let ?n = "length ks"
  have n: "0 < ?n" using Cons by simp
  have n1: "int ?n = int (length rest) + 1" using Cons by simp
  from strokes_run [OF ok assms(5)] obtain s1 where
    r: "run (strokes ks) s = Inr s1" and ok1: "histOk s1"
    and i1: "historyIndex s1 = min (historyIndex s + int ?n) (max (historyIndex s) 49)"
    and d1: "length (drawings s1) = length (drawings s) + ?n"
    and keep: "\<And>j X. int j \<le> historyIndex s \<Longrightarrow> history s ! nat (historyIndex s - int j) = X
                 \<Longrightarrow> int j + int ?n \<le> historyIndex s1
                 \<Longrightarrow> history s1 ! nat (historyIndex s1 - (int j + int ?n)) = X"
    by blast
  have pos: "0 < historyIndex s1" using i1 assms(2) n1 b by linarith
  have rg: "0 \<le> historyIndex s1" "historyIndex s1 < int (length (history s1))"
    using pos ok1 by (simp_all add: histOk_def)
  from undos_run [OF rg, of ?n] n pos obtain s2 where
    u: "run (replicate ?n Undo) s1 = Inr s2"
    and i2: "historyIndex s2 = max (historyIndex s1 - int ?n) 0"
    and d2: "drawings s2 = history s1 ! nat (historyIndex s2)"
    by auto
  have "history s1 ! nat (historyIndex s2) = drawings s"
  proof (cases "int ?n \<le> historyIndex s1")
    case True
    have e: "historyIndex s2 = historyIndex s1 - int ?n"
      using i2 True by linarith
    have "history s1 ! nat (historyIndex s1 - (int 0 + int ?n)) = drawings s"
      using keep [of 0 "drawings s"] assms(2,3) True by simp
    then show ?thesis unfolding e by simp
  next
    case False
    then have full: "?n = 50" "historyIndex s1 = 49"
      using i1 assms(2,4) b by linarith+
    from assms(5) Cons have ck: "commits s k" by simp
    from stroke_step [OF ok ck] obtain sa where
      ra: "run (strokeActions k) s = Inr sa" and oka: "histOk sa"
      and ca: "history sa ! nat (historyIndex sa) = drawings s"
      by blast
    from assms(5) Cons ra have "commitsAll sa rest" by simp
    from strokes_run [OF oka this] obtain sb where
      rb: "run (strokes rest) sa = Inr sb"
      and keepb: "\<And>j X. int j \<le> historyIndex sa \<Longrightarrow> history sa ! nat (historyIndex sa - int j) = X
                 \<Longrightarrow> int j + int (length rest) \<le> historyIndex sb
                 \<Longrightarrow> history sb ! nat (historyIndex sb - (int j + int (length rest))) = X"
      by blast
    have "run (strokes ks) s = Inr sb"
      using ra rb Cons by (simp add: strokes_def run_append)
    with r have eq: "sb = s1" by simp
    have ia: "0 \<le> historyIndex sa"
      using stroke_step [OF ok ck] ra assms(2) by auto
    have lr: "int (length rest) = 49" using full Cons by simp
    have e: "historyIndex s2 = 0"
      using i2 full by linarith
    have "history sb ! nat (historyIndex sb - (int 0 + int (length rest))) = drawings s"
      using keepb [of 0 "drawings s"] ia ca eq full lr by simp
    then show ?thesis unfolding e using eq full lr by simp
  qed
  with r d1 u d2 show ?thesis by auto
qed

subsection \<open>Concrete runs\<close>

lemma strokes_append: "strokes (xs @ ys) = strokes xs @ strokes ys"
  by (simp add: strokes_def)

lemma text_stroke:
  assumes "currentTool s = ''text''" and "zoom s \<noteq> 0"
  shows "\<exists>s'. run (strokeActions k) s = Inr s' \<and> commits s k
           \<and> currentTool s' = ''text'' \<and> zoom s' = zoom s"
  using assms
  by (simp add: commits_def strokeActions_def handleMouseDown_def handleMouseMove_def
        handleMouseUp_def canvasCoord_def isValidDrawing_def Let_def)

lemma text_commitsAll:
  assumes "currentTool s = ''text''" and "zoom s \<noteq> 0"
  shows "commitsAll s ks"
  using assms
proof (induction ks arbitrary: s)
  case Nil
  show ?case by simp
next
  case (Cons k ks)
  from text_stroke [OF Cons.prems, of k] obtain s' where
    "run (strokeActions k) s = Inr s'" "commits s k" "currentTool s' = ''text''" "zoom s' = zoom s"
    by blast
  then show ?case using Cons.IH [of s'] Cons.prems(2) by simp
qed

lemma reachable_afterClear: "reachable afterClear"
proof -
  have "run [SetTool ''text'', Clear] initial = Inr afterClear"
    by (simp add: clear_def editor_eval afterClear_def)
  with reachable_initial show ?thesis by (rule reachable_run)
qed

lemma reachable_lineTool: "reachable lineTool"
proof -
  have "step (SetTool ''line'') initial = Inr lineTool" by (simp add: lineTool_def)
  with reachable_initial show ?thesis by (rule reachable_step)
qed

theorem commits_then_undos_restore_witness:
  "reachable afterClear \<and> 0 \<le> historyIndex afterClear
   \<and> history afterClear ! nat (historyIndex afterClear) = drawings afterClear
   \<and> length [stroke0, stroke0] \<le> 50
   \<and> commitsAll afterClear [stroke0, stroke0]
   \<and> (\<exists>s1 s2. run (strokes [stroke0, stroke0]) afterClear = Inr s1
          \<and> length (drawings s1) = length (drawings afterClear) + length [stroke0, stroke0]
          \<and> run (replicate (length [stroke0, stroke0]) Undo) s1 = Inr s2
          \<and> drawings s2 = drawings afterClear)"
proof -
  have i: "0 \<le> historyIndex afterClear"
    and c: "history afterClear ! nat (historyIndex afterClear) = drawings afterClear"
    by (simp_all add: afterClear_def initial_def)
  have n: "length [stroke0, stroke0] \<le> 50" by simp
  have a: "commitsAll afterClear [stroke0, stroke0]"
    by (rule text_commitsAll) (simp_all add: afterClear_def initial_def)
  show ?thesis
    using commits_then_undos_restore [OF reachable_afterClear i c n a] reachable_afterClear i c a
    by simp
qed

lemma run_twoLabels: "run (strokes [stroke0, stroke0]) afterClear = Inr twoLabels"
  by (simp add: strokes_def strokeActions_def stroke0_def dom0_def pt_def label0_def
        afterClear_def twoLabels_def editor_eval)

text \<open>
  Claim C2 as stated fails.  From the fresh editor with the line tool, one stroke and
  one \<^verbatim>\<open>undo\<close> leave the line in the scene.  From the editor after \<^verbatim>\<open>clear\<close>, where the
  snapshot at the cursor is the scene, 51 strokes and 51 calls of \<^verbatim>\<open>undo\<close> leave one label:
  the history holds 50 snapshots and the empty scene has been evicted.
\<close>

theorem commits_then_undos_counterexample:
  "reachable lineTool \<and> drawings lineTool = []
   \<and> commitsAll lineTool [stroke0]
   \<and> run (strokes [stroke0] @ replicate 1 Undo) lineTool = Inr afterLine
   \<and> drawings afterLine = [lineFrom 0 0 100 0]
   \<and> reachable afterClear \<and> drawings afterClear = []
   \<and> history afterClear ! nat (historyIndex afterClear) = drawings afterClear
   \<and> commitsAll afterClear (replicate 51 stroke0)
   \<and> \<not> isl (run (strokes (replicate 51 stroke0) @ replicate 51 Undo) afterClear)
   \<and> drawings (projr (run (strokes (replicate 51 stroke0) @ replicate 51 Undo) afterClear))
       = [label0]"
proof -
  have l1: "drawings lineTool = []" by (simp add: lineTool_def initial_def)
  have l2: "run (strokes [stroke0] @ replicate 1 Undo) lineTool = Inr afterLine"
    by (simp add: strokes_def strokeActions_def stroke0_def dom0_def pt_def lineFrom_def
          lineTool_def afterLine_def editor_eval)
  have l3: "commitsAll lineTool [stroke0]"
    by (simp add: commits_def strokes_def strokeActions_def stroke0_def dom0_def pt_def lineFrom_def
          lineTool_def afterLine_def editor_eval)
  have l4: "drawings afterLine = [lineFrom 0 0 100 0]" by (simp add: afterLine_def)
  have c1: "drawings afterClear = []"
    and c2: "history afterClear ! nat (historyIndex afterClear) = drawings afterClear"
    by (simp_all add: afterClear_def initial_def)
  have c3: "commitsAll afterClear (replicate 51 stroke0)"
    by (rule text_commitsAll) (simp_all add: afterClear_def initial_def)
  have sp: "replicate 51 stroke0 = [stroke0, stroke0] @ replicate 49 stroke0"
    by (simp add: eval_nat_numeral)
  have ok2: "histOk twoLabels"
    by (simp add: histOk_def twoLabels_def initial_def)
  have "commitsAll twoLabels (replicate 49 stroke0)"
    by (rule text_commitsAll) (simp_all add: twoLabels_def initial_def)
  from strokes_run [OF ok2 this] obtain s51 where
    r: "run (strokes (replicate 49 stroke0)) twoLabels = Inr s51" and ok: "histOk s51"
    and i: "historyIndex s51 = 49"
    and keep: "\<And>j X. int j \<le> historyIndex twoLabels
                 \<Longrightarrow> history twoLabels ! nat (historyIndex twoLabels - int j) = X
                 \<Longrightarrow> int j + 49 \<le> historyIndex s51
                 \<Longrightarrow> history s51 ! nat (historyIndex s51 - (int j + 49)) = X"
    by (auto simp: twoLabels_def initial_def)
  have h0: "history s51 ! 0 = [label0]"
    using keep [of 0 "[label0]"] i by (simp add: twoLabels_def initial_def)
  have rall: "run (strokes (replicate 51 stroke0)) afterClear = Inr s51"
    by (simp only: sp strokes_append run_append run_twoLabels r sum.case)
  have rg: "0 \<le> historyIndex s51" "historyIndex s51 < int (length (history s51))"
    using i ok by (simp_all add: histOk_def)
  from undos_run [OF rg, of 51] i obtain t where
    u: "run (replicate 51 Undo) s51 = Inr t" and "historyIndex t = 0"
    and "drawings t = history s51 ! nat (historyIndex t)"
    by auto
  then have dt: "drawings t = [label0]" using h0 by simp
  have "run (strokes (replicate 51 stroke0) @ replicate 51 Undo) afterClear = Inr t"
    using rall u by (simp add: run_append)
  then have c4: "\<not> isl (run (strokes (replicate 51 stroke0) @ replicate 51 Undo) afterClear)"
    and c5: "drawings (projr (run (strokes (replicate 51 stroke0) @ replicate 51 Undo) afterClear))
       = [label0]"
    using dt by simp_all
  show ?thesis
    using reachable_lineTool l1 l3 l2 l4 reachable_afterClear c1 c2 c3 c4 c5 by blast
qed

end
